theory Spec2Isabelle
  imports Complex_Main "HOL-Library.Word"
begin

unbundle bit_operations_syntax

section \<open>Polly test server: a shallow embedding of \<^verbatim>\<open>test_server/server.py\<close>\<close>

text \<open>
  The relay server decodes two binary sensor formats coming from the phone (thermal
  frames on \<^verbatim>\<open>/flir\<close>, range scans on \<^verbatim>\<open>/lidar\<close>), fans the decoded
  messages out to the browser clients, forwards browser commands to the phone's
  \<^verbatim>\<open>/control\<close> endpoint and reconnects every endpoint with a growing delay.

  Python integers are unbounded and are modelled as \<open>int\<close>; a \<^verbatim>\<open>bytes\<close> object is a
  list of 8-bit words. Exceptions are values of the type \<open>error\<close>.
\<close>

subsection \<open>Bytes, ranges and \<^verbatim>\<open>struct.unpack_from\<close>\<close>

type_synonym byte = "8 word"

datatype error = StructError | ValueError | AttributeError

text \<open>
  \<^verbatim>\<open>range(0, stop, step)\<close> for a positive step: the multiples of the step below
  \<open>stop\<close>; empty when \<open>stop \<le> 0\<close>. Python computes the length as
  \<open>\<lceil>stop / step\<rceil>\<close> in that case.
\<close>

definition py_range :: "int \<Rightarrow> nat \<Rightarrow> nat list" where
  "py_range stop step =
     map (\<lambda>j. j * step) [0 ..< nat ((stop + int step - 1) div int step)]"

text \<open>The little-endian unsigned value of a byte string.\<close>

fun le_uint :: "byte list \<Rightarrow> int" where
  "le_uint [] = 0"
| "le_uint (b # bs) = uint b + 256 * le_uint bs"

text \<open>
  \<^verbatim>\<open>struct.unpack_from("<H", buf, off)[0]\<close> and
  \<^verbatim>\<open>struct.unpack_from("<HHII", buf, off)\<close>: both raise \<^verbatim>\<open>struct.error\<close> when the
  buffer holds fewer bytes than the format needs from the offset on.
\<close>

definition unpack_from_H :: "byte list \<Rightarrow> nat \<Rightarrow> error + int" where
  "unpack_from_H buf off =
     (if off + 2 \<le> length buf then Inr (le_uint (take 2 (drop off buf)))
      else Inl StructError)"

definition unpack_from_HHII :: "byte list \<Rightarrow> nat \<Rightarrow> error + (int \<times> int \<times> int \<times> int)" where
  "unpack_from_HHII buf off =
     (if off + 12 \<le> length buf
      then Inr (le_uint (take 2 (drop off buf)),
                le_uint (take 2 (drop (off + 2) buf)),
                le_uint (take 4 (drop (off + 4) buf)),
                le_uint (take 4 (drop (off + 8) buf)))
      else Inl StructError)"

subsection \<open>Thermal frames (\<^verbatim>\<open>endpoint == "flir"\<close>)\<close>

text \<open>
  \<^verbatim>\<open>int(x)\<close> on a float truncates towards zero. The quotient
  \<^verbatim>\<open>(raw - min_val) * 255 / val_range\<close> is a true division; it is modelled on the
  rationals. The numerator is below \<open>2 ^ 41\<close> in absolute value and the denominator
  below \<open>2 ^ 32\<close>, so the double the interpreter computes lies in the same unit
  interval \<open>[n, n + 1)\<close> as the exact quotient whenever \<open>0 \<le> n < 255\<close>, stays at or
  above 255 when the quotient does and at or below 0 when the quotient does: the pixel
  that is appended after clamping is the one computed here.
\<close>

definition py_int :: "rat \<Rightarrow> int" where
  "py_int x = (if 0 \<le> x then \<lfloor>x\<rfloor> else \<lceil>x\<rceil>)"

definition flir_pixel :: "int \<Rightarrow> int \<Rightarrow> int \<Rightarrow> int" where
  "flir_pixel raw min_val val_range =
     (let normalized = py_int (of_int ((raw - min_val) * 255) / of_int val_range)
      in max 0 (min 255 normalized))"

text \<open>
  The loop \<^verbatim>\<open>for i in range(0, len(pixel_data) - 1, 2)\<close>, over the list of its
  indices, with the list \<^verbatim>\<open>pixels\<close> it appends to.
\<close>

fun flir_loop :: "byte list \<Rightarrow> int \<Rightarrow> int \<Rightarrow> nat list \<Rightarrow> int list \<Rightarrow> error + int list" where
  "flir_loop pixel_data min_val val_range [] acc = Inr acc"
| "flir_loop pixel_data min_val val_range (i # rest) acc =
     (case unpack_from_H pixel_data i of
        Inl e \<Rightarrow> Inl e
      | Inr raw \<Rightarrow>
          flir_loop pixel_data min_val val_range rest
            (acc @ [flir_pixel raw min_val val_range]))"

record thermal_frame =
  width :: int
  height :: int
  minVal :: int
  maxVal :: int
  pixels :: "int list"

subsection \<open>Range scans (\<^verbatim>\<open>endpoint == "lidar"\<close>)\<close>

text \<open>
  \<^verbatim>\<open>round(x, 1)\<close>: the nearest multiple of one tenth, ties to the even one. The
  angle and the distance are an integer divided by 64 or by 4, which a double holds
  exactly, and Python rounds the exact value; the result stands for the double nearest
  to the decimal computed here.
\<close>

definition round_half_even :: "rat \<Rightarrow> int" where
  "round_half_even x =
     (let f = \<lfloor>x\<rfloor>; r = x - of_int f
      in if r < 1 / 2 then f else if 1 / 2 < r then f + 1
         else if even f then f else f + 1)"

definition py_round1 :: "rat \<Rightarrow> rat" where
  "py_round1 x = of_int (round_half_even (x * 10)) / 10"

text \<open>A scan point: the values under the keys \<^verbatim>\<open>"a"\<close>, \<^verbatim>\<open>"d"\<close> and \<^verbatim>\<open>"q"\<close>.\<close>

record point =
  point_a :: rat
  point_d :: rat
  point_q :: int

text \<open>
  The three fields of a 5-byte record, as the loop body computes them: the quality from
  the upper six bits of the first byte, the angle in 64ths of a degree from the next
  two bytes without the start flag, and the distance in quarters of a millimetre.
\<close>

definition lidar_quality :: "byte \<Rightarrow> int" where
  "lidar_quality b0 = drop_bit 2 (uint b0)"

definition lidar_angle :: "byte \<Rightarrow> byte \<Rightarrow> rat" where
  "lidar_angle b1 b2 = of_int (drop_bit 1 (uint b1) OR push_bit 7 (uint b2)) / 64"

definition lidar_distance :: "byte \<Rightarrow> byte \<Rightarrow> rat" where
  "lidar_distance b3 b4 = of_int (uint b3 OR push_bit 8 (uint b4)) / 4"

text \<open>
  One pass of the loop body on the slice \<^verbatim>\<open>data[i:i+5]\<close>. Unpacking a slice of
  another length into five names raises \<^verbatim>\<open>ValueError\<close>. The result is the point
  to append, if any.
\<close>

fun lidar_record :: "byte list \<Rightarrow> error + point option" where
  "lidar_record [b0, b1, b2, b3, b4] =
     (let quality = lidar_quality b0
      in if quality = 0 then Inr None
         else
           let angle = lidar_angle b1 b2;
               distance = lidar_distance b3 b4
           in if distance > 0
              then Inr (Some \<lparr>point_a = py_round1 angle, point_d = py_round1 distance,
                              point_q = quality\<rparr>)
              else Inr None)"
| "lidar_record _ = Inl ValueError"

fun lidar_loop :: "byte list \<Rightarrow> nat list \<Rightarrow> point list \<Rightarrow> error + point list" where
  "lidar_loop data [] points = Inr points"
| "lidar_loop data (i # rest) points =
     (case lidar_record (take 5 (drop i data)) of
        Inl e \<Rightarrow> Inl e
      | Inr None \<Rightarrow> lidar_loop data rest points
      | Inr (Some p) \<Rightarrow> lidar_loop data rest (points @ [p]))"

subsection \<open>\<^verbatim>\<open>handle_phone_binary\<close>\<close>

text \<open>
  The message a binary frame is turned into, before \<^verbatim>\<open>json.dumps\<close>: the camera
  frame (sent on as base64 text), the thermal frame or the list of scan points.
\<close>

datatype envelope = Camera "byte list" | Flir thermal_frame | Lidar "point list"

text \<open>
  The body of the \<^verbatim>\<open>flir\<close> branch: the frame handed to
  \<^verbatim>\<open>broadcast_to_browsers\<close>, \<open>None\<close> when the payload is shorter than the
  header and nothing is sent.
\<close>

definition flir_frame :: "byte list \<Rightarrow> error + thermal_frame option" where
  "flir_frame data =
     (if length data \<ge> 12 then
        (case unpack_from_HHII data 0 of
           Inl e \<Rightarrow> Inl e
         | Inr (w, h, min_val, max_val) \<Rightarrow>
             (let pixel_data = drop 12 data;
                  val_range = max (max_val - min_val) 1
              in (case flir_loop pixel_data min_val val_range
                         (py_range (int (length pixel_data) - 1) 2) [] of
                    Inl e \<Rightarrow> Inl e
                  | Inr px \<Rightarrow>
                      Inr (Some \<lparr>width = w, height = h, minVal = min_val,
                                 maxVal = max_val, pixels = px\<rparr>))))
      else Inr None)"

text \<open>The loop of the \<^verbatim>\<open>lidar\<close> branch: the list \<^verbatim>\<open>points\<close> after it.\<close>

definition lidar_points :: "byte list \<Rightarrow> error + point list" where
  "lidar_points data = lidar_loop data (py_range (int (length data) - 4) 5) []"

text \<open>
  The decoding part of \<^verbatim>\<open>handle_phone_binary\<close>: \<open>Inr (Some m)\<close> when the message
  \<open>m\<close> is handed to \<^verbatim>\<open>broadcast_to_browsers\<close>, \<open>Inr None\<close> when the function
  returns without a message, \<open>Inl e\<close> when it raises.
\<close>

definition phone_binary_message :: "string \<Rightarrow> byte list \<Rightarrow> error + envelope option" where
  "phone_binary_message endpoint data =
     (if endpoint = ''camera'' then Inr (Some (Camera data))
      else if endpoint = ''flir'' then
        (case flir_frame data of
           Inl e \<Rightarrow> Inl e
         | Inr None \<Rightarrow> Inr None
         | Inr (Some fr) \<Rightarrow> Inr (Some (Flir fr)))
      else if endpoint = ''lidar'' then
        (case lidar_points data of
           Inl e \<Rightarrow> Inl e
         | Inr points \<Rightarrow> Inr (if points \<noteq> [] then Some (Lidar points) else None))
      else Inr None)"

text \<open>
  The normalisation as the specification words it, with rounding to the nearest integer
  in place of the truncation of \<^verbatim>\<open>int\<close>; it is compared with \<open>flir_pixel\<close>.
\<close>

definition spec_flir_pixel :: "int \<Rightarrow> int \<Rightarrow> int \<Rightarrow> int" where
  "spec_flir_pixel raw min_val max_val =
     max 0 (min 255 (round (of_int ((raw - min_val) * 255) / (of_int (max (max_val - min_val) 1) :: rat))))"

subsection \<open>\<^verbatim>\<open>broadcast_to_browsers\<close>\<close>

text \<open>
  A browser client is an aiohttp \<^verbatim>\<open>WebSocketResponse\<close>. Its \<^verbatim>\<open>send_str\<close> either
  delivers the text or raises: \<^verbatim>\<open>ConnectionError\<close> on a closing transport,
  \<^verbatim>\<open>RuntimeError\<close> on a response that is not prepared. The field \<open>fault\<close> says
  which, if any. The set \<^verbatim>\<open>browser_clients\<close> is the list of its members in
  iteration order; every send, delivered or not, is recorded in \<open>sends\<close>.
\<close>

datatype send_fault = ConnectionError | RuntimeError

record client =
  client_id :: nat
  fault :: "send_fault option"

datatype 'm send_event = Send_ok client 'm | Send_raised client 'm send_fault

record 'm hub =
  browser_clients :: "client list"
  sends :: "'m send_event list"

definition send_str :: "client \<Rightarrow> 'm \<Rightarrow> 'm hub \<Rightarrow> send_fault option \<times> 'm hub" where
  "send_str ws message h =
     (case fault ws of
        None \<Rightarrow> (None, h\<lparr>sends := sends h @ [Send_ok ws message]\<rparr>)
      | Some e \<Rightarrow> (Some e, h\<lparr>sends := sends h @ [Send_raised ws message e]\<rparr>))"

text \<open>
  The loop \<^verbatim>\<open>for ws in browser_clients\<close> with the set \<^verbatim>\<open>stale\<close> it fills;
  \<^verbatim>\<open>stale.add\<close> is \<open>List.insert\<close>.
\<close>

fun broadcast_loop :: "'m \<Rightarrow> client list \<Rightarrow> 'm hub \<Rightarrow> client list \<Rightarrow> 'm hub \<times> client list" where
  "broadcast_loop message [] h stale = (h, stale)"
| "broadcast_loop message (ws # rest) h stale =
     (case send_str ws message h of
        (None, h') \<Rightarrow> broadcast_loop message rest h' stale
      | (Some ConnectionError, h') \<Rightarrow> broadcast_loop message rest h' (List.insert ws stale)
      | (Some RuntimeError, h') \<Rightarrow> broadcast_loop message rest h' (List.insert ws stale))"

definition broadcast_to_browsers :: "'m \<Rightarrow> 'm hub \<Rightarrow> 'm hub" where
  "broadcast_to_browsers message h =
     (if browser_clients h = [] then h
      else
        (case broadcast_loop message (browser_clients h) h [] of
           (h', stale) \<Rightarrow>
             h'\<lparr>browser_clients := filter (\<lambda>ws. ws \<notin> set stale) (browser_clients h')\<rparr>))"

definition handle_phone_binary :: "string \<Rightarrow> byte list \<Rightarrow> envelope hub \<Rightarrow> error + envelope hub" where
  "handle_phone_binary endpoint data h =
     (case phone_binary_message endpoint data of
        Inl e \<Rightarrow> Inl e
      | Inr None \<Rightarrow> Inr h
      | Inr (Some m) \<Rightarrow> Inr (broadcast_to_browsers m h))"

subsection \<open>JSON values and \<^verbatim>\<open>json.dumps\<close>\<close>

text \<open>
  What \<^verbatim>\<open>json.loads\<close> returns: \<^verbatim>\<open>None\<close>, a bool, an int, a float, a str, a list
  or a dict with string keys, in insertion order. Floats are values of a type
  parameter, printed by a function \<open>fr\<close> that stands for \<^verbatim>\<open>float.__repr__\<close>
  (with floats given by their printed form, \<open>fr\<close> is \<open>id\<close>).
  Characters are the code points below 256.
\<close>

datatype 'f json =
    JNull
  | JBool bool
  | JInt int
  | JFloat 'f
  | JStr string
  | JList "'f json list"
  | JObj "(string \<times> 'f json) list"

fun str_nat :: "nat \<Rightarrow> string" where
  "str_nat n =
     (if n < 10 then [char_of (48 + n)]
      else str_nat (n div 10) @ [char_of (48 + n mod 10)])"

definition str_int :: "int \<Rightarrow> string" where
  "str_int i = (if i < 0 then CHR ''-'' # str_nat (nat (- i)) else str_nat (nat i))"

definition hex_digit :: "nat \<Rightarrow> char" where
  "hex_digit n = (if n < 10 then char_of (48 + n) else char_of (87 + n))"

text \<open>
  The escapes of \<^verbatim>\<open>json.dumps\<close> with \<^verbatim>\<open>ensure_ascii=True\<close>: the quote, the
  backslash, the five named control characters, and \<^verbatim>\<open>\u00XX\<close> for every other
  character outside the printable ASCII range.
\<close>

abbreviation dquote :: char where
  "dquote \<equiv> CHR 0x22"

abbreviation backslash :: char where
  "backslash \<equiv> CHR 0x5C"

definition json_escape :: "char \<Rightarrow> string" where
  "json_escape c =
     (if c = dquote then [backslash, dquote]
      else if c = backslash then [backslash, backslash]
      else if c = CHR 0x0A then [backslash, CHR ''n'']
      else if c = CHR 0x0D then [backslash, CHR ''r'']
      else if c = CHR 0x09 then [backslash, CHR ''t'']
      else if c = CHR 0x08 then [backslash, CHR ''b'']
      else if c = CHR 0x0C then [backslash, CHR ''f'']
      else if 32 \<le> (of_char c :: nat) \<and> (of_char c :: nat) \<le> 126 then [c]
      else [backslash, CHR ''u'', CHR ''0'', CHR ''0'',
            hex_digit (of_char c div 16), hex_digit (of_char c mod 16)])"

definition json_string :: "string \<Rightarrow> string" where
  "json_string s = dquote # concat (map json_escape s) @ [dquote]"

fun join_comma :: "string list \<Rightarrow> string" where
  "join_comma [] = []"
| "join_comma [x] = x"
| "join_comma (x # y # ys) = x @ '', '' @ join_comma (y # ys)"

primrec json_dumps :: "('f \<Rightarrow> string) \<Rightarrow> 'f json \<Rightarrow> string" where
  "json_dumps fr JNull = ''null''"
| "json_dumps fr (JBool b) = (if b then ''true'' else ''false'')"
| "json_dumps fr (JInt i) = str_int i"
| "json_dumps fr (JFloat x) = fr x"
| "json_dumps fr (JStr s) = json_string s"
| "json_dumps fr (JList xs) = ''['' @ join_comma (map (json_dumps fr) xs) @ '']''"
| "json_dumps fr (JObj kvs) =
     ''{'' @ join_comma (map (\<lambda>(k, s). json_string k @ '': '' @ s)
                           (map (map_prod id (json_dumps fr)) kvs)) @ ''}''"

text \<open>
  \<^verbatim>\<open>msg.get(key, default)\<close>: only a dict has the method; on any other value the
  call raises \<^verbatim>\<open>AttributeError\<close>.
\<close>

fun py_get :: "'f json \<Rightarrow> string \<Rightarrow> 'f json \<Rightarrow> error + 'f json" where
  "py_get (JObj kvs) key dflt = Inr (case map_of kvs key of None \<Rightarrow> dflt | Some v \<Rightarrow> v)"
| "py_get _ key dflt = Inl AttributeError"

subsection \<open>The command channel: \<^verbatim>\<open>send_control\<close> and \<^verbatim>\<open>handle_browser_message\<close>\<close>

text \<open>
  The global \<^verbatim>\<open>control_ws\<close> is \<open>None\<close> or the connection to \<^verbatim>\<open>/control\<close>; a
  connection is described by whether its \<^verbatim>\<open>send\<close> raises. \<open>upstream\<close> lists the
  texts that went out on the control connection, \<open>mc\<close> is the attribute
  \<^verbatim>\<open>handle_browser_message._mc\<close> (absent before the first motor message) and \<open>log\<close>
  the records written to the logger.
\<close>

record link =
  send_raises :: bool

datatype log_entry = Motor_info nat | Control_dropped | Control_send_failed

record control_state =
  control_ws :: "link option"
  upstream :: "string list"
  mc :: "nat option"
  log :: "log_entry list"

definition send_control :: "('f \<Rightarrow> string) \<Rightarrow> 'f json \<Rightarrow> control_state \<Rightarrow> control_state" where
  "send_control fr payload st =
     (case control_ws st of
        None \<Rightarrow> st\<lparr>log := log st @ [Control_dropped]\<rparr>
      | Some ws \<Rightarrow>
          if send_raises ws then st\<lparr>log := log st @ [Control_send_failed]\<rparr>
          else st\<lparr>upstream := upstream st @ [json_dumps fr payload]\<rparr>)"

text \<open>
  \<^verbatim>\<open>handle_browser_message\<close> after \<^verbatim>\<open>json.loads\<close>: the argument is \<open>None\<close> when
  the text does not parse (\<^verbatim>\<open>JSONDecodeError\<close>) and the parsed value otherwise.
\<close>

definition handle_browser_message ::
    "('f \<Rightarrow> string) \<Rightarrow> 'f json option \<Rightarrow> control_state \<Rightarrow> error + control_state" where
  "handle_browser_message fr parsed st =
     (case parsed of
        None \<Rightarrow> Inr st
      | Some msg \<Rightarrow>
          (case py_get msg ''type'' JNull of
             Inl e \<Rightarrow> Inl e
           | Inr ty \<Rightarrow>
               if ty = JStr ''motor'' then
                 (case py_get msg ''left'' (JInt 0) of
                    Inl e \<Rightarrow> Inl e
                  | Inr left \<Rightarrow>
                      (case py_get msg ''right'' (JInt 0) of
                         Inl e \<Rightarrow> Inl e
                       | Inr right \<Rightarrow>
                           (let cmd = json_dumps fr (JObj [(''N'', JInt 7), (''D1'', left), (''D2'', right)]);
                                n = (case mc st of None \<Rightarrow> 0 | Some n \<Rightarrow> n) + 1;
                                st1 = st\<lparr>mc := Some n\<rparr>;
                                st2 = (if n mod 20 = 1 then st1\<lparr>log := log st1 @ [Motor_info n]\<rparr>
                                       else st1)
                            in Inr (send_control fr
                                      (JObj [(''target'', JStr ''arduino''), (''cmd'', JStr cmd)]) st2))))
               else if ty = JStr ''stop'' then
                 (let cmd = json_dumps fr (JObj [(''N'', JInt 6)])
                  in Inr (send_control fr
                            (JObj [(''target'', JStr ''arduino''), (''cmd'', JStr cmd)]) st))
               else if ty = JStr ''control'' then
                 (case py_get msg ''payload'' (JObj []) of
                    Inl e \<Rightarrow> Inl e
                  | Inr payload \<Rightarrow> Inr (send_control fr payload st))
               else Inr st))"

subsection \<open>Reconnection: \<^verbatim>\<open>connect_phone_endpoint\<close>\<close>


datatype ep_event = Status bool | Sleep rat




fun sleeps :: "ep_event list \<Rightarrow> rat list" where
  "sleeps [] = []"
| "sleeps (Sleep t # evs) = t # sleeps evs"
| "sleeps (Status b # evs) = sleeps evs"





section \<open>Properties\<close>

subsection \<open>Ranges and slices\<close>

lemma py_range_2: "py_range (int n - 1) 2 = map (\<lambda>j. j * 2) [0 ..< n div 2]"
proof -
  have "nat ((int n - 1 + int 2 - 1) div int 2) = n div 2" by (simp add: nat_div_distrib) 
  then show ?thesis unfolding py_range_def by simp
qed

lemma py_range_5: "py_range (int n - 4) 5 = map (\<lambda>j. j * 5) [0 ..< n div 5]"
proof -
  have "nat ((int n - 4 + int 5 - 1) div int 5) = n div 5" by (simp add: nat_div_distrib) 
  then show ?thesis unfolding py_range_def by simp
qed

lemma take_drop_nths:
  "i + n \<le> length xs \<Longrightarrow> take n (drop i xs) = map (\<lambda>k. xs ! (i + k)) [0 ..< n]"
  by (rule nth_equalityI) auto

lemma take2_drop: "i + 2 \<le> length xs \<Longrightarrow> take 2 (drop i xs) = [xs ! i, xs ! (i + 1)]"
  by (simp add: take_drop_nths upt_rec)

lemma take4_drop: "i + 4 \<le> length xs \<Longrightarrow> take 4 (drop i xs) = [xs ! i, xs ! (i + 1), xs ! (i + 2), xs ! (i + 3)]"
  by (simp add: take_drop_nths upt_rec eval_nat_numeral)

lemma take5_drop: "i + 5 \<le> length xs \<Longrightarrow> take 5 (drop i xs) = [xs ! i, xs ! (i + 1), xs ! (i + 2), xs ! (i + 3), xs ! (i + 4)]"
  by (simp add: take_drop_nths upt_rec eval_nat_numeral)

lemma flir_loop_map:
  "\<forall>i \<in> set idx. i + 2 \<le> length pd \<Longrightarrow>
   flir_loop pd mn rg idx acc =
     Inr (acc @ map (\<lambda>i. flir_pixel (uint (pd ! i) + 256 * uint (pd ! (i + 1))) mn rg) idx)"
proof (induction idx arbitrary: acc)
  case Nil
  then show ?case by simp
next
  case (Cons i idx)
  from Cons.prems have i: "i + 2 \<le> length pd" by simp
  have raw: "unpack_from_H pd i = Inr (uint (pd ! i) + 256 * uint (pd ! (i + 1)))"
    using i by (simp add: unpack_from_H_def take2_drop)
  from Cons.prems have rest: "\<forall>i \<in> set idx. i + 2 \<le> length pd" by simp
  show ?case by (simp add: raw Cons.IH [OF rest])
qed

lemma flir_frame_eq:
  assumes "12 \<le> length data"
  shows "flir_frame data =
     Inr (Some \<lparr>width = le_uint (take 2 data),
                height = le_uint (take 2 (drop 2 data)),
                minVal = le_uint (take 4 (drop 4 data)),
                maxVal = le_uint (take 4 (drop 8 data)),
                pixels = map (\<lambda>j. flir_pixel (uint (data ! (12 + 2 * j)) + 256 * uint (data ! (13 + 2 * j)))
                                   (le_uint (take 4 (drop 4 data)))
                                   (max (le_uint (take 4 (drop 8 data)) - le_uint (take 4 (drop 4 data))) 1))
                             [0 ..< (length data - 12) div 2]\<rparr>)"
proof -
  let ?pd = "drop 12 data"
  have rng: "\<forall>i \<in> set (py_range (int (length ?pd) - 1) 2). i + 2 \<le> length ?pd"
    unfolding py_range_2 by auto
  have hdr: "unpack_from_HHII data 0 = Inr (le_uint (take 2 data), le_uint (take 2 (drop 2 data)),
      le_uint (take 4 (drop 4 data)), le_uint (take 4 (drop 8 data)))"
    using assms by (simp add: unpack_from_HHII_def numeral_2_eq_2)
  have nth: "\<And>j. j < (length data - 12) div 2 \<Longrightarrow> ?pd ! (j * 2) = data ! (12 + 2 * j) \<and> ?pd ! (j * 2 + 1) =  data ! (13 + 2 * j)"
    using assms by (simp add: mult.commute)
  have loop: "flir_loop ?pd mn rg (py_range (int (length ?pd) - 1) 2) [] =
      Inr (map (\<lambda>j. flir_pixel (uint (data ! (12 + 2 * j)) + 256 * uint (data ! (13 + 2 * j))) mn rg)
             [0 ..< (length data - 12) div 2])" for mn rg
    using flir_loop_map [OF rng, of mn rg "[]"] by (simp add: py_range_2 comp_def nth mult.commute)
  show ?thesis
    unfolding flir_frame_def
    by (simp only: assms if_True hdr Let_def loop sum.case prod.case)
qed

subsection \<open>The thermal decoder\<close>

lemma py_int_of_int [simp]: "py_int (of_int k) = k"
  by (simp add: py_int_def)

lemma clamp_py_int_div:
  assumes "0 < b"
  shows "max 0 (min 255 (py_int (of_int a / of_int b))) = max 0 (min 255 (a div b))"
proof (cases "0 \<le> a")
  case True
  then have "(0::rat) \<le> of_int a / of_int b" using assms by simp
  then show ?thesis by (simp add: py_int_def floor_divide_of_int_eq)
next
  case False
  then have neg: "of_int a / of_int b < (0::rat)" using assms by (simp add: divide_neg_pos)
  then have "\<lceil>of_int a / of_int b :: rat\<rceil> \<le> 0" by (simp add: ceiling_le_iff)
  moreover have "a div b < 0" using False assms by (simp add: div_neg_pos_less0)
  ultimately show ?thesis using neg by (simp add: py_int_def)
qed

lemma flir_pixel_forms:
  assumes "0 < rg"
  shows "flir_pixel raw mn rg = max 0 (min 255 (py_int (of_int ((raw - mn) * 255) / of_int rg)))
       \<and> flir_pixel raw mn rg = max 0 (min 255 (((raw - mn) * 255) div rg))"
proof -
  have 1: "flir_pixel raw mn rg = max 0 (min 255 (py_int (of_int ((raw - mn) * 255) / of_int rg)))"
    by (simp only: flir_pixel_def Let_def)
  have 2: "max 0 (min 255 (py_int (of_int ((raw - mn) * 255) / of_int rg)))
         = max 0 (min 255 (((raw - mn) * 255) div rg))"
    by (rule clamp_py_int_div [OF assms])
  from 1 2 show ?thesis by (simp only: simp_thms)
qed

lemma flir_pixel_flat: "flir_pixel raw mn 1 = (if raw \<le> mn then 0 else 255)"
proof -
  have "flir_pixel raw mn 1 = max 0 (min 255 ((raw - mn) * 255))"
    unfolding flir_pixel_def Let_def by (simp only: of_int_1 div_by_1 py_int_of_int)
  then show ?thesis by auto
qed

text \<open>
  Claim C6. A payload of fewer than 12 bytes yields no frame and no message, without an
  error: the hub is returned as it was. A payload of at least 12 bytes yields a frame
  with \<open>\<lfloor>(length - 12) / 2\<rfloor>\<close> pixels, so a dangling odd byte of the body is ignored.
\<close>

theorem flir_absent_or_pixel_count:
  "(length data < 12 \<longrightarrow>
      flir_frame data = Inr None \<and> phone_binary_message ''flir'' data = Inr None
      \<and> handle_phone_binary ''flir'' data h = Inr h)
   \<and> (12 \<le> length data \<longrightarrow>
      (\<exists>fr. flir_frame data = Inr (Some fr)
            \<and> phone_binary_message ''flir'' data = Inr (Some (Flir fr))
            \<and> length (pixels fr) = (length data - 12) div 2))"
proof (intro conjI impI)
  assume short: "length data < 12"
  then show "flir_frame data = Inr None" by (simp add: flir_frame_def)
  then show  "phone_binary_message ''flir'' data = Inr None"
    by (simp add: phone_binary_message_def)
  then show "handle_phone_binary ''flir'' data h = Inr h"
    by (simp add: handle_phone_binary_def)
next
  assume "12 \<le> length data"
  then show "\<exists>fr. flir_frame data = Inr (Some fr)
            \<and> phone_binary_message ''flir'' data = Inr (Some (Flir fr))
            \<and> length (pixels fr) = (length data - 12) div 2"
    by (simp add: flir_frame_eq phone_binary_message_def)
qed

text \<open>A 3-byte payload and a 17-byte payload with an odd body of 5 bytes.\<close>

theorem flir_absent_or_pixel_count_witness:
  "length ([1, 2, 3] :: byte list) < 12
   \<and> flir_frame [1, 2, 3] = Inr None
   \<and> 12 \<le> length ([2, 0, 1, 0, 0, 0, 0, 0, 4, 0, 0, 0, 1, 0, 3, 0, 9] :: byte list)
   \<and> length (pixels (the (projr (flir_frame [2, 0, 1, 0, 0, 0, 0, 0, 4, 0, 0, 0, 1, 0, 3, 0, 9]))))
       = (length ([2, 0, 1, 0, 0, 0, 0, 0, 4, 0, 0, 0, 1, 0, 3, 0, 9] :: byte list) - 12) div 2"
  using flir_absent_or_pixel_count [of "[1, 2, 3]"]
    flir_absent_or_pixel_count [of "[2, 0, 1, 0, 0, 0, 0, 0, 4, 0, 0, 0, 1, 0, 3, 0, 9]"]
  by auto

text \<open>
  Claim C1, amended. For a payload of at least 12 bytes, the pixel at index \<open>i\<close> is
  \<open>clamp(trunc((raw - minVal) * 255 / range), 0, 255)\<close>, where \<open>raw\<close> is the
  little-endian 16-bit sample at the bytes \<open>12 + 2 i\<close> and \<open>13 + 2 i\<close>,
  \<open>range = max(maxVal - minVal, 1)\<close> and \<open>trunc\<close> drops the fraction (towards zero);
  after the clamp this is the floor of the quotient as well.
\<close>

theorem flir_pixel_truncates:
  assumes "12 \<le> length data"
  shows "\<exists>fr. flir_frame data = Inr (Some fr)
     \<and> minVal fr = le_uint (take 4 (drop 4 data))
     \<and> maxVal fr = le_uint (take 4 (drop 8 data))
     \<and> length (pixels fr) = (length data - 12) div 2
     \<and> (\<forall>i < length (pixels fr).
          let raw = uint (data ! (12 + 2 * i)) + 256 * uint (data ! (13 + 2 * i));
              rg = max (maxVal fr - minVal fr) 1
          in pixels fr ! i = max 0 (min 255 (py_int (of_int ((raw - minVal fr) * 255) / of_int rg)))
             \<and> pixels fr ! i = max 0 (min 255 (((raw - minVal fr) * 255) div rg)))"
proof -
  let ?mn = "le_uint (take 4 (drop 4 data))"
  let ?mx = "le_uint (take 4 (drop 8 data))"
  let ?rg = "max (?mx - ?mn) 1"
  let ?raw = "\<lambda>i. uint (data ! (12 + 2 * i)) + 256 * uint (data ! (13 + 2 * i))"
  let ?fr = "\<lparr>width = le_uint (take 2 data), height = le_uint (take 2 (drop 2 data)),
              minVal = ?mn, maxVal = ?mx,
              pixels = map (\<lambda>j. flir_pixel (?raw j) ?mn ?rg) [0 ..< (length data - 12) div 2]\<rparr>"
  have fr: "flir_frame data = Inr (Some ?fr)" by (rule flir_frame_eq [OF assms])
  have pos: "0 < ?rg" by simp
  have sel: "minVal ?fr = ?mn" "maxVal ?fr = ?mx" by simp_all
  show ?thesis
  proof (intro exI [of _ ?fr] conjI allI impI)
    show "flir_frame data = Inr (Some ?fr)" by (rule fr)
    show "minVal ?fr = ?mn" by simp
    show "maxVal ?fr = ?mx" by simp
    show "length (pixels ?fr) = (length data - 12) div 2" by simp
  next
    fix i assume "i < length (pixels ?fr)"
    then have nth: "pixels ?fr ! i = flir_pixel (?raw i) ?mn ?rg" by simp
    show "let raw = ?raw i; rg = max (maxVal ?fr - minVal ?fr) 1
          in pixels ?fr ! i = max 0 (min 255 (py_int (of_int ((raw - minVal ?fr) * 255) / of_int rg)))
             \<and> pixels ?fr ! i = max 0 (min 255 (((raw - minVal ?fr) * 255) div rg))"
      unfolding Let_def sel nth by (rule flir_pixel_forms [OF pos])
  qed
qed

text \<open>The frame with \<open>minVal = 0\<close>, \<open>maxVal = 4\<close> and the single sample 1.\<close>

theorem flir_pixel_truncates_witness:
  "12 \<le> length ([1, 0, 1, 0, 0, 0, 0, 0, 4, 0, 0, 0, 1, 0] :: byte list)
   \<and> flir_frame [1, 0, 1, 0, 0, 0, 0, 0, 4, 0, 0, 0, 1, 0]
       = Inr (Some \<lparr>width = 1, height = 1, minVal = 0, maxVal = 4, pixels = [63]\<rparr>)
   \<and> (63 :: int) = max 0 (min 255 (((1 - 0) * 255) div max (4 - 0) 1))"
proof -
  have ev: "flir_frame [1, 0, 1, 0, 0, 0, 0, 0, 4, 0, 0, 0, 1, 0]
       = Inr (Some \<lparr>width = 1, height = 1, minVal = 0, maxVal = 4, pixels = [63]\<rparr>)"
    by code_simp
  from flir_pixel_truncates [of "[1, 0, 1, 0, 0, 0, 0, 0, 4, 0, 0, 0, 1, 0]"] ev
  show ?thesis by simp
qed

text \<open>
  Claim C1 as stated fails: with \<open>minVal = 0\<close>, \<open>maxVal = 4\<close> and the sample 1 the
  quotient is 63.75; the decoded pixel is 63 and the rounded value is 64.
\<close>

theorem flir_pixel_round_counterexample:
  "flir_frame [1, 0, 1, 0, 0, 0, 0, 0, 4, 0, 0, 0, 1, 0]
       = Inr (Some \<lparr>width = 1, height = 1, minVal = 0, maxVal = 4, pixels = [63]\<rparr>)
   \<and> spec_flir_pixel (uint (1 :: byte) + 256 * uint (0 :: byte)) 0 4 = 64"
  by code_simp

text \<open>
  Claim C4, amended. With \<open>minVal = maxVal\<close> in the header the range is 1, and a pixel
  is 0 when its raw sample is at most \<open>minVal\<close> and 255 when it is larger. For
  the header width 2, height 1, \<open>minVal = maxVal = 100\<close> and the two samples 100 the
  pixels are \<open>[0, 0]\<close>.
\<close>

theorem flir_flat_scene:
  "(12 \<le> length data \<and> le_uint (take 4 (drop 4 data)) = le_uint (take 4 (drop 8 data)) \<longrightarrow>
      (\<exists>fr. flir_frame data = Inr (Some fr)
         \<and> (\<forall>i < length (pixels fr).
              pixels fr ! i =
                (if uint (data ! (12 + 2 * i)) + 256 * uint (data ! (13 + 2 * i)) \<le> minVal fr
                 then 0 else 255))))
   \<and> flir_frame [2, 0, 1, 0, 100, 0, 0, 0, 100, 0, 0, 0, 100, 0, 100, 0]
       = Inr (Some \<lparr>width = 2, height = 1, minVal = 100, maxVal = 100, pixels = [0, 0]\<rparr>)"
proof (intro conjI impI)
  assume "12 \<le> length data \<and> le_uint (take 4 (drop 4 data)) = le_uint (take 4 (drop 8 data))"
  then show "\<exists>fr. flir_frame data = Inr (Some fr)
         \<and> (\<forall>i < length (pixels fr).
              pixels fr ! i =
                (if uint (data ! (12 + 2 * i)) + 256 * uint (data ! (13 + 2 * i)) \<le> minVal fr
                 then 0 else 255))"
    by (simp add: flir_frame_eq flir_pixel_flat)
next
  show "flir_frame [2, 0, 1, 0, 100, 0, 0, 0, 100, 0, 0, 0, 100, 0, 100, 0]
       = Inr (Some \<lparr>width = 2, height = 1, minVal = 100, maxVal = 100, pixels = [0, 0]\<rparr>)"
    by code_simp
qed

text \<open>The flat header with the samples 100 and 200.\<close>

theorem flir_flat_scene_witness:
  "12 \<le> length ([2, 0, 1, 0, 100, 0, 0, 0, 100, 0, 0, 0, 100, 0, 200, 0] :: byte list)
   \<and> le_uint (take 4 (drop 4 [2, 0, 1, 0, 100, 0, 0, 0, 100, 0, 0, 0, 100, 0, 200, 0]))
       = le_uint (take 4 (drop 8 [2, 0, 1, 0, 100, 0, 0, 0, 100, 0, 0, 0, 100, 0, 200, 0]))
   \<and> flir_frame [2, 0, 1, 0, 100, 0, 0, 0, 100, 0, 0, 0, 100, 0, 200, 0]
       = Inr (Some \<lparr>width = 2, height = 1, minVal = 100, maxVal = 100, pixels = [0, 255]\<rparr>)"
proof -
  have ev: "flir_frame [2, 0, 1, 0, 100, 0, 0, 0, 100, 0, 0, 0, 100, 0, 200, 0]
       = Inr (Some \<lparr>width = 2, height = 1, minVal = 100, maxVal = 100, pixels = [0, 255]\<rparr>)"
    by code_simp
  from flir_flat_scene [of "[2, 0, 1, 0, 100, 0, 0, 0, 100, 0, 0, 0, 100, 0, 200, 0]"] ev
  show ?thesis by simp
qed

text \<open>
  Claim C4 as stated fails: with \<open>minVal = maxVal = 100\<close> and the samples 101 and 99
  the pixels are \<open>[255, 0]\<close>.
\<close>

theorem flir_flat_scene_counterexample:
  "flir_frame [2, 0, 1, 0, 100, 0, 0, 0, 100, 0, 0, 0, 101, 0, 99, 0]
     = Inr (Some \<lparr>width = 2, height = 1, minVal = 100, maxVal = 100, pixels = [255, 0]\<rparr>)"
  by code_simp

subsection \<open>The range-scan decoder\<close>

lemma lidar_record_total: "length xs = 5 \<Longrightarrow> \<exists>r. lidar_record xs = Inr r"
proof -
  assume "length xs = 5"
  then obtain b0 b1 b2 b3 b4 where "xs = [b0, b1, b2, b3, b4]"
    by (auto simp: length_Suc_conv eval_nat_numeral)
  then show ?thesis by (simp add: Let_def)
qed

lemma lidar_loop_filter:
  "\<forall>i \<in> set idx. i + 5 \<le> length data \<Longrightarrow>
   lidar_loop data idx acc =
     Inr (acc @ List.map_filter (\<lambda>i. projr (lidar_record (take 5 (drop i data)))) idx)"
proof (induction idx arbitrary: acc)
  case Nil
  then show ?case by (simp add: List.map_filter_simps)
next
  case (Cons i idx)
  from Cons.prems have "i + 5 \<le> length data" by simp
  then have "length (take 5 (drop i data)) = 5" by (auto simp: min_def)
  then obtain r where r: "lidar_record (take 5 (drop i data)) = Inr r"
    using lidar_record_total by blast
  from Cons.prems have rest: "\<forall>i \<in> set idx. i + 5 \<le> length data" by simp
  show ?case
    by (cases r) (simp_all add: r Cons.IH [OF rest] List.map_filter_simps)
qed

lemma lidar_points_eq:
  "lidar_points data =
     Inr (List.map_filter (\<lambda>j. projr (lidar_record (take 5 (drop (5 * j) data))))
            [0 ..< length data div 5])"
proof -
  have rng: "\<forall>i \<in> set (py_range (int (length data) - 4) 5). i + 5 \<le> length data"
    unfolding py_range_5 by auto
  show ?thesis
    unfolding lidar_points_def
    using lidar_loop_filter [OF rng, of "[]"]
    by (simp add: py_range_5 List.map_filter_def comp_def mult.commute filter_map)
qed

lemma lidar_points_short: "length data < 5 \<Longrightarrow> lidar_points data = Inr []"
  by (simp add: lidar_points_eq List.map_filter_simps)

lemma slice_append_left:
  "i + n \<le> length xs \<Longrightarrow> take n (drop i (xs @ ys)) = take n (drop i xs)"
  by simp

lemma slice_append_right:
  "take n (drop (length xs + i) (xs @ ys)) = take n (drop i ys)"
  by simp


lemma map_filter_cong_set:
  "(\<And>x. x \<in> set xs \<Longrightarrow> f x = g x) \<Longrightarrow> List.map_filter f xs = List.map_filter g xs"
  by (induction xs) (auto simp: List.map_filter_simps split: option.splits)

lemma map_filter_of_map: "List.map_filter f (map g xs) = List.map_filter (\<lambda>x. f (g x)) xs"
  by (induction xs) (auto simp: List.map_filter_simps split: option.splits)

lemma map_filter_app:
  "List.map_filter f (xs @ ys) = List.map_filter f xs @ List.map_filter f ys"
  by (simp add: List.map_filter_def)

lemma lidar_points_append:
  assumes "length xs = 5 * m"
  shows "lidar_points (xs @ ys) = Inr (projr (lidar_points xs) @ projr (lidar_points ys))"
proof -
  let ?f = "\<lambda>dat j. projr (lidar_record (take 5 (drop (5 * j) dat)))"
  have len: "length (xs @ ys) div 5 = m + length ys div 5" using assms by simp
  have split: "[0 ..< m + length ys div 5] = [0 ..< m] @ map (\<lambda>j. j + m) [0 ..< length ys div 5]"
  proof -
    have "[0 ..< m + length ys div 5] = [0 ..< m] @ [m ..< m + length ys div 5]"
      by (rule upt_add_eq_append) simp
    moreover have "map (\<lambda>j. j + m) [0 ..< length ys div 5] = [m ..< length ys div 5 + m]"
      by (rule map_add_upt)
    moreover have "length ys div 5 + m = m + length ys div 5" by (rule add.commute)
    ultimately show ?thesis by (simp only:)
  qed
  have left: "?f (xs @ ys) j = ?f xs j" if "j \<in> set [0 ..< m]" for j
  proof -
    from that assms have "5 * j + 5 \<le> length xs" by simp
    then show ?thesis by (simp only: slice_append_left)
  qed
  have right: "?f (xs @ ys) (j + m) = ?f ys j" for j
  proof -
    have "5 * (j + m) = length xs + 5 * j" using assms by simp
    then show ?thesis by (simp only: slice_append_right)
  qed
  have "List.map_filter (?f (xs @ ys)) [0 ..< length (xs @ ys) div 5]
      = List.map_filter (?f xs) [0 ..< m] @ List.map_filter (?f ys) [0 ..< length ys div 5]"
    unfolding len split map_filter_app map_filter_of_map right
    by (simp only: map_filter_cong_set [of "[0 ..< m]" "?f (xs @ ys)" "?f xs", OF left])
  moreover have "length xs div 5 = m" using assms by simp
  ultimately show ?thesis by (simp add: lidar_points_eq)
qed

lemma lidar_points_Inr: "lidar_points data = Inr (projr (lidar_points data))"
  by (simp add: lidar_points_eq)

lemma map_filter_all_Some:
  "(\<And>x. x \<in> set xs \<Longrightarrow> f x = Some (g x)) \<Longrightarrow> List.map_filter f xs = map g xs"
  by (induction xs) (simp_all add: List.map_filter_simps)

lemma lidar_points_single:
  "lidar_points [b0, b1, b2, b3, b4] =
     Inr (case projr (lidar_record [b0, b1, b2, b3, b4]) of None \<Rightarrow> [] | Some p \<Rightarrow> [p])"
  by (simp add: lidar_points_eq List.map_filter_simps del: lidar_record.simps split: option.split)

text \<open>
  Claim C7. A 5-byte record whose quality bits are 0 contributes no point, whatever its
  other four bytes are: the loop body yields nothing for it, and a buffer with such a
  record at a record boundary decodes to the same points as the buffer without it.
\<close>

theorem lidar_zero_quality_excluded:
  assumes "5 dvd length pre" and "lidar_quality b0 = 0"
  shows "lidar_record [b0, b1, b2, b3, b4] = Inr None
       \<and> lidar_points (pre @ [b0, b1, b2, b3, b4] @ post) = lidar_points (pre @ post)"
proof
  show none: "lidar_record [b0, b1, b2, b3, b4] = Inr None"
    using assms(2) by simp
  from assms(1) obtain m where m: "length pre = 5 * m" by (auto simp: dvd_def)
  have one: "lidar_points [b0, b1, b2, b3, b4] = Inr []"
    unfolding lidar_points_single none by simp
  have "lidar_points ([b0, b1, b2, b3, b4] @ post) = Inr (projr (lidar_points post))"
    using lidar_points_append [of "[b0, b1, b2, b3, b4]" 1 post] by (simp only: one) simp
  then have "lidar_points (pre @ [b0, b1, b2, b3, b4] @ post)
           = Inr (projr (lidar_points pre) @ projr (lidar_points post))"
    using lidar_points_append [OF m, of "[b0, b1, b2, b3, b4] @ post"] by simp
  then show "lidar_points (pre @ [b0, b1, b2, b3, b4] @ post) = lidar_points (pre @ post)"
    using lidar_points_append [OF m, of post] by simp
qed

text \<open>A zero-quality record with all other bits set, between two valid records.\<close>

theorem lidar_zero_quality_excluded_witness:
  "5 dvd length ([4, 32, 0, 1, 0] :: byte list)
   \<and> lidar_quality 3 = 0
   \<and> lidar_record [3, 255, 255, 255, 255] = Inr None
   \<and> lidar_points ([4, 32, 0, 1, 0] @ [3, 255, 255, 255, 255] @ [8, 0, 64, 4, 0, 7])
       = lidar_points ([4, 32, 0, 1, 0] @ [8, 0, 64, 4, 0, 7])
   \<and> lidar_points ([4, 32, 0, 1, 0] @ [8, 0, 64, 4, 0, 7])
       = Inr [\<lparr>point_a = 1 / 5, point_d = 1 / 5, point_q = 1\<rparr>,
              \<lparr>point_a = 128, point_d = 1, point_q = 2\<rparr>]"
proof -
  have h1: "5 dvd length ([4, 32, 0, 1, 0] :: byte list)" by code_simp
  have h2: "lidar_quality 3 = 0" by (simp add: lidar_quality_def)
  have ev: "lidar_points ([4, 32, 0, 1, 0] @ [8, 0, 64, 4, 0, 7])
       = Inr [\<lparr>point_a = 1 / 5, point_d = 1 / 5, point_q = 1\<rparr>,
              \<lparr>point_a = 128, point_d = 1, point_q = 2\<rparr>]"
    by code_simp
  note t = lidar_zero_quality_excluded [OF h1 h2, of 255 255 255 255 "[8, 0, 64, 4, 0, 7]"]
  show ?thesis by (intro conjI h1 h2 ev conjunct1 [OF t] conjunct2 [OF t])
qed

text \<open>
  Claim C5. For a buffer of \<open>5 k + r\<close> bytes with \<open>r < 5\<close> the trailing \<open>r\<close> bytes are
  ignored: the result is that of the first \<open>5 k\<close> bytes. When each of the \<open>k\<close>
  records has a quality above 0 and a decoded distance above 0, the result has exactly
  \<open>k\<close> points, and the point at index \<open>j\<close> is the one of record \<open>j\<close>.
\<close>

theorem lidar_decodes_every_valid_record:
  assumes "length data = 5 * k + r" and "r < 5"
  shows "lidar_points data = lidar_points (take (5 * k) data)
       \<and> ((\<forall>j < k. 0 < lidar_quality (data ! (5 * j))
                  \<and> 0 < lidar_distance (data ! (5 * j + 3)) (data ! (5 * j + 4))) \<longrightarrow>
            (\<exists>pts. lidar_points data = Inr pts \<and> length pts = k
               \<and> (\<forall>j < k. pts ! j =
                     \<lparr>point_a = py_round1 (lidar_angle (data ! (5 * j + 1)) (data ! (5 * j + 2))),
                      point_d = py_round1 (lidar_distance (data ! (5 * j + 3)) (data ! (5 * j + 4))),
                      point_q = lidar_quality (data ! (5 * j))\<rparr>)))"
proof (intro conjI impI)
  have tk: "length (take (5 * k) data) = 5 * k" using assms by simp
  have dr: "length (drop (5 * k) data) < 5" using assms by simp
  have "lidar_points (take (5 * k) data @ drop (5 * k) data)
      = Inr (projr (lidar_points (take (5 * k) data)) @ projr (lidar_points (drop (5 * k) data)))"
    by (rule lidar_points_append [OF tk])
  then have "lidar_points data = Inr (projr (lidar_points (take (5 * k) data)))"
    by (simp add: lidar_points_short [OF dr])
  then show "lidar_points data = lidar_points (take (5 * k) data)"
    using lidar_points_Inr [of "take (5 * k) data"] by simp
next
  let ?g = "\<lambda>j. \<lparr>point_a = py_round1 (lidar_angle (data ! (5 * j + 1)) (data ! (5 * j + 2))),
                      point_d = py_round1 (lidar_distance (data ! (5 * j + 3)) (data ! (5 * j + 4))),
                      point_q = lidar_quality (data ! (5 * j))\<rparr>"
  assume valid: "\<forall>j < k. 0 < lidar_quality (data ! (5 * j))
                  \<and> 0 < lidar_distance (data ! (5 * j + 3)) (data ! (5 * j + 4))"
  have n: "length data div 5 = k" using assms by simp
  have rec: "projr (lidar_record (take 5 (drop (5 * j) data))) = Some (?g j)"
    if "j \<in> set [0 ..< k]" for j
  proof -
    from that have j: "j < k" by simp
    with assms have "5 * j + 5 \<le> length data" by simp
    then have "take 5 (drop (5 * j) data) =
        [data ! (5 * j), data ! (5 * j + 1), data ! (5 * j + 2), data ! (5 * j + 3), data ! (5 * j + 4)]"
      by (rule take5_drop)
    moreover from valid j have "lidar_quality (data ! (5 * j)) \<noteq> 0"
      and "0 < lidar_distance (data ! (5 * j + 3)) (data ! (5 * j + 4))" by auto
    ultimately show ?thesis by (simp add: Let_def)
  qed
  have "lidar_points data = Inr (map ?g [0 ..< k])"
    unfolding lidar_points_eq n
    by (simp only: map_filter_all_Some [of "[0 ..< k]" _ ?g, OF rec])
  then show "\<exists>pts. lidar_points data = Inr pts \<and> length pts = k \<and> (\<forall>j < k. pts ! j = ?g j)"
    by simp
qed

text \<open>Two valid records followed by two stray bytes.\<close>

theorem lidar_decodes_every_valid_record_witness:
  "length ([4, 32, 0, 1, 0, 255, 255, 255, 255, 255, 8, 8] :: byte list) = 5 * 2 + 2
   \<and> (2 :: nat) < 5
   \<and> 0 < lidar_quality 4 \<and> 0 < lidar_distance 1 0
   \<and> 0 < lidar_quality 255 \<and> 0 < lidar_distance 255 255
   \<and> lidar_points [4, 32, 0, 1, 0, 255, 255, 255, 255, 255, 8, 8]
       = lidar_points (take (5 * 2) [4, 32, 0, 1, 0, 255, 255, 255, 255, 255, 8, 8])
   \<and> length (projr (lidar_points [4, 32, 0, 1, 0, 255, 255, 255, 255, 255, 8, 8])) = 2
   \<and> lidar_points [4, 32, 0, 1, 0, 255, 255, 255, 255, 255, 8, 8]
       = Inr [\<lparr>point_a = 1 / 5, point_d = 1 / 5, point_q = 1\<rparr>,
              \<lparr>point_a = 512, point_d = 81919 / 5, point_q = 63\<rparr>]"
proof -
  let ?data = "[4, 32, 0, 1, 0, 255, 255, 255, 255, 255, 8, 8] :: byte list"
  have h1: "length ?data = 5 * 2 + 2" by simp
  have h2: "(2 :: nat) < 5" by simp
  have q0: "0 < lidar_quality 4" by code_simp
  have d0: "0 < lidar_distance 1 0" by code_simp
  have q1: "0 < lidar_quality 255" by code_simp
  have d1: "0 < lidar_distance 255 255" by code_simp
  have valid: "\<forall>j < 2. 0 < lidar_quality (?data ! (5 * j))
                  \<and> 0 < lidar_distance (?data ! (5 * j + 3)) (?data ! (5 * j + 4))"
  proof (intro allI impI)
    fix j :: nat assume "j < 2"
    then consider "j = 0" | "j = 1" by linarith
    then show "0 < lidar_quality (?data ! (5 * j))
                  \<and> 0 < lidar_distance (?data ! (5 * j + 3)) (?data ! (5 * j + 4))"
      using q0 d0 q1 d1 by cases simp_all
  qed
  have ev: "lidar_points ?data
       = Inr [\<lparr>point_a = 1 / 5, point_d = 1 / 5, point_q = 1\<rparr>,
              \<lparr>point_a = 512, point_d = 81919 / 5, point_q = 63\<rparr>]"
    by code_simp
  note t = lidar_decodes_every_valid_record [OF h1 h2]
  from conjunct2 [OF t] valid obtain pts where "lidar_points ?data = Inr pts" and "length pts = 2"
    by blast
  then have len: "length (projr (lidar_points ?data)) = 2" by simp
  show ?thesis by (intro conjI h1 h2 q0 d0 q1 d1 ev len conjunct1 [OF t])
qed

subsection \<open>Broadcasting\<close>

lemma send_str_clients [simp]: "browser_clients (snd (send_str ws message h)) = browser_clients h"
  by (simp add: send_str_def split: option.split)









subsection \<open>The command channel\<close>

lemma dumps_stop: "json_dumps fr (JObj [(''N'', JInt 6)]) = ''{'' @ [dquote] @ ''N'' @ [dquote] @ '': 6}''"
  by code_simp

lemma dumps_motor_zero:
  "json_dumps fr (JObj [(''N'', JInt 7), (''D1'', JInt 0), (''D2'', JInt 0)])
     = ''{'' @ [dquote] @ ''N'' @ [dquote] @ '': 7, '' @ [dquote] @ ''D1'' @ [dquote] @ '': 0, ''
         @ [dquote] @ ''D2'' @ [dquote] @ '': 0}''"
  by code_simp

lemma dumps_stop_wrapped:
  "json_dumps fr (JObj [(''target'', JStr ''arduino''),
                        (''cmd'', JStr (json_dumps fr (JObj [(''N'', JInt 6)])))])
     = ''{'' @ [dquote] @ ''target'' @ [dquote] @ '': '' @ [dquote] @ ''arduino'' @ [dquote] @ '', ''
         @ [dquote] @ ''cmd'' @ [dquote] @ '': '' @ [dquote]
         @ ''{'' @ [backslash, dquote] @ ''N'' @ [backslash, dquote] @ '': 6}'' @ [dquote] @ ''}''"
  by code_simp

lemma send_control_live:
  "control_ws st = Some ws \<Longrightarrow> \<not> send_raises ws \<Longrightarrow>
   send_control fr payload st = st\<lparr>upstream := upstream st @ [json_dumps fr payload]\<rparr>"
  by (simp add: send_control_def)

lemma send_control_none:
  "control_ws st = None \<Longrightarrow>
   send_control fr payload st = st\<lparr>log := log st @ [Control_dropped]\<rparr>"
  by (simp add: send_control_def)

lemma handle_stop:
  "map_of kvs ''type'' = Some (JStr ''stop'') \<Longrightarrow>
   handle_browser_message fr (Some (JObj kvs)) st =
     Inr (send_control fr (JObj [(''target'', JStr ''arduino''),
                                 (''cmd'', JStr (json_dumps fr (JObj [(''N'', JInt 6)])))]) st)"
  by (simp add: handle_browser_message_def Let_def)

lemma handle_motor:
  "map_of kvs ''type'' = Some (JStr ''motor'') \<Longrightarrow>
   handle_browser_message fr (Some (JObj kvs)) st =
     Inr (send_control fr
            (JObj [(''target'', JStr ''arduino''),
                   (''cmd'', JStr (json_dumps fr
                      (JObj [(''N'', JInt 7),
                             (''D1'', case map_of kvs ''left'' of None \<Rightarrow> JInt 0 | Some v \<Rightarrow> v),
                             (''D2'', case map_of kvs ''right'' of None \<Rightarrow> JInt 0 | Some v \<Rightarrow> v)])))])
            (let n = (case mc st of None \<Rightarrow> 0 | Some n \<Rightarrow> n) + 1
             in if n mod 20 = 1 then st\<lparr>mc := Some n, log := log st @ [Motor_info n]\<rparr>
                else st\<lparr>mc := Some n\<rparr>))"
  by (simp add: handle_browser_message_def Let_def)


text \<open>
  Claim C2, amended. For a message of type \<open>stop\<close> and a control connection whose
  \<^verbatim>\<open>send\<close> succeeds, exactly one text goes upstream: the object with the keys
  \<^verbatim>\<open>target\<close> (\<^verbatim>\<open>"arduino"\<close>) and \<^verbatim>\<open>cmd\<close>, where \<^verbatim>\<open>cmd\<close> is the string that
  holds the JSON text of \<^verbatim>\<open>{"N": 6}\<close>.
\<close>

theorem stop_sends_wrapped_command:
  assumes "map_of kvs ''type'' = Some (JStr ''stop'')"
    and "control_ws st = Some ws" and "\<not> send_raises ws"
  shows "handle_browser_message fr (Some (JObj kvs)) st =
           Inr (st\<lparr>upstream := upstream st @
                  [json_dumps fr (JObj [(''target'', JStr ''arduino''),
                                        (''cmd'', JStr (json_dumps fr (JObj [(''N'', JInt 6)])))])]\<rparr>)
       \<and> json_dumps fr (JObj [(''N'', JInt 6)]) = ''{'' @ [dquote] @ ''N'' @ [dquote] @ '': 6}''
       \<and> json_dumps fr (JObj [(''target'', JStr ''arduino''),
                               (''cmd'', JStr (json_dumps fr (JObj [(''N'', JInt 6)])))])
           = ''{'' @ [dquote] @ ''target'' @ [dquote] @ '': '' @ [dquote] @ ''arduino'' @ [dquote]
             @ '', '' @ [dquote] @ ''cmd'' @ [dquote] @ '': '' @ [dquote]
             @ ''{'' @ [backslash, dquote] @ ''N'' @ [backslash, dquote] @ '': 6}'' @ [dquote] @ ''}''"
proof (intro conjI)
  show "handle_browser_message fr (Some (JObj kvs)) st =
           Inr (st\<lparr>upstream := upstream st @
                  [json_dumps fr (JObj [(''target'', JStr ''arduino''),
                                        (''cmd'', JStr (json_dumps fr (JObj [(''N'', JInt 6)])))])]\<rparr>)"
    by (simp only: handle_stop [OF assms(1)] send_control_live [OF assms(2,3)])
qed (rule dumps_stop, rule dumps_stop_wrapped)

text \<open>The message \<^verbatim>\<open>{"type": "stop"}\<close> on a fresh state with a working connection.\<close>

theorem stop_sends_wrapped_command_witness:
  "map_of [(''type'', JStr ''stop'')] ''type'' = Some (JStr ''stop'' :: string json)
   \<and> control_ws \<lparr>control_ws = Some \<lparr>send_raises = False\<rparr>, upstream = [], mc = None, log = []\<rparr>
       = Some \<lparr>send_raises = False\<rparr>
   \<and> \<not> send_raises \<lparr>send_raises = False\<rparr>
   \<and> handle_browser_message id (Some (JObj [(''type'', JStr ''stop'')]))
        \<lparr>control_ws = Some \<lparr>send_raises = False\<rparr>, upstream = [], mc = None, log = []\<rparr>
      = Inr \<lparr>control_ws = Some \<lparr>send_raises = False\<rparr>,
             upstream = [''{'' @ [dquote] @ ''target'' @ [dquote] @ '': '' @ [dquote] @ ''arduino''
               @ [dquote] @ '', '' @ [dquote] @ ''cmd'' @ [dquote] @ '': '' @ [dquote]
               @ ''{'' @ [backslash, dquote] @ ''N'' @ [backslash, dquote] @ '': 6}'' @ [dquote] @ ''}''],
             mc = None, log = []\<rparr>"
proof -
  let ?st = "\<lparr>control_ws = Some \<lparr>send_raises = False\<rparr>, upstream = [], mc = None, log = []\<rparr>"
  have h1: "map_of [(''type'', JStr ''stop'')] ''type'' = Some (JStr ''stop'' :: string json)" by simp
  have h2: "control_ws ?st = Some \<lparr>send_raises = False\<rparr>" by simp
  have h3: "\<not> send_raises \<lparr>send_raises = False\<rparr>" by simp
  note t = stop_sends_wrapped_command [OF h1 h2 h3, of id]
  have a: "handle_browser_message id (Some (JObj [(''type'', JStr ''stop'')])) ?st
      = Inr (?st\<lparr>upstream := upstream ?st @
               [json_dumps id (JObj [(''target'', JStr ''arduino''),
                   (''cmd'', JStr (json_dumps id (JObj [(''N'', JInt 6)])))])]\<rparr>)"
    by (rule conjunct1 [OF t])
  have b: "json_dumps id (JObj [(''target'', JStr ''arduino''),
                   (''cmd'', JStr (json_dumps id (JObj [(''N'', JInt 6)])))])
       = ''{'' @ [dquote] @ ''target'' @ [dquote] @ '': '' @ [dquote] @ ''arduino''
               @ [dquote] @ '', '' @ [dquote] @ ''cmd'' @ [dquote] @ '': '' @ [dquote]
               @ ''{'' @ [backslash, dquote] @ ''N'' @ [backslash, dquote] @ '': 6}'' @ [dquote] @ ''}''"
    by (rule conjunct2 [OF conjunct2 [OF t]])
  show ?thesis using h1 h2 h3 unfolding a b by simp
qed

text \<open>
  Claim C2 as stated fails: the one text sent for \<^verbatim>\<open>{"type": "stop"}\<close> is the
  wrapper object, which differs from the text of \<^verbatim>\<open>{"N": 6}\<close>.
\<close>

theorem stop_bare_payload_counterexample:
  "handle_browser_message id (Some (JObj [(''type'', JStr ''stop'')]))
        \<lparr>control_ws = Some \<lparr>send_raises = False\<rparr>, upstream = [], mc = None, log = []\<rparr>
      = Inr \<lparr>control_ws = Some \<lparr>send_raises = False\<rparr>,
             upstream = [''{'' @ [dquote] @ ''target'' @ [dquote] @ '': '' @ [dquote] @ ''arduino''
               @ [dquote] @ '', '' @ [dquote] @ ''cmd'' @ [dquote] @ '': '' @ [dquote]
               @ ''{'' @ [backslash, dquote] @ ''N'' @ [backslash, dquote] @ '': 6}'' @ [dquote] @ ''}''],
             mc = None, log = []\<rparr>
   \<and> json_dumps id (JObj [(''N'', JInt 6)]) = ''{'' @ [dquote] @ ''N'' @ [dquote] @ '': 6}''
   \<and> ''{'' @ [dquote] @ ''target'' @ [dquote] @ '': '' @ [dquote] @ ''arduino''
               @ [dquote] @ '', '' @ [dquote] @ ''cmd'' @ [dquote] @ '': '' @ [dquote]
               @ ''{'' @ [backslash, dquote] @ ''N'' @ [backslash, dquote] @ '': 6}'' @ [dquote] @ ''}''
       \<noteq> ''{'' @ [dquote] @ ''N'' @ [dquote] @ '': 6}''"
  by code_simp

text \<open>
  Claim C8. While \<^verbatim>\<open>control_ws\<close> is \<open>None\<close>, \<^verbatim>\<open>send_control\<close> returns normally
  with nothing added to the upstream texts: the state changes by one log record only.
  A motor message is handled without an error and sends nothing either. Nothing is kept
  for later: once a connection is set, the next command sends its own text alone.
\<close>

theorem control_dropped_without_link:
  assumes "control_ws st = None"
  shows "send_control fr payload st = st\<lparr>log := log st @ [Control_dropped]\<rparr>
       \<and> upstream (send_control fr payload st) = upstream st
       \<and> control_ws (send_control fr payload st) = None
       \<and> (\<forall>kvs. map_of kvs ''type'' = Some (JStr ''motor'') \<longrightarrow>
             (\<exists>st'. handle_browser_message fr (Some (JObj kvs)) st = Inr st'
                    \<and> upstream st' = upstream st \<and> control_ws st' = None))
       \<and> (\<forall>ws payload'. \<not> send_raises ws \<longrightarrow>
             upstream (send_control fr payload' ((send_control fr payload st)\<lparr>control_ws := Some ws\<rparr>))
               = upstream st @ [json_dumps fr payload'])"
proof (intro conjI allI impI)
  show "send_control fr payload st = st\<lparr>log := log st @ [Control_dropped]\<rparr>"
    by (rule send_control_none [OF assms])
  then show "upstream (send_control fr payload st) = upstream st"
    and "control_ws (send_control fr payload st) = None"
    using assms by simp_all
next
  fix kvs :: "(string \<times> 'a json) list"
  assume "map_of kvs ''type'' = Some (JStr ''motor'')"
  then show "\<exists>st'. handle_browser_message fr (Some (JObj kvs)) st = Inr st'
                    \<and> upstream st' = upstream st \<and> control_ws st' = None"
    using assms by (simp add: handle_motor send_control_def Let_def)
next
  fix ws :: link and payload' :: "'a json"
  assume "\<not> send_raises ws"
  then show "upstream (send_control fr payload' ((send_control fr payload st)\<lparr>control_ws := Some ws\<rparr>))
               = upstream st @ [json_dumps fr payload']"
    using assms by (simp add: send_control_def)
qed

text \<open>A stop command and a motor message on a state without a connection.\<close>

theorem control_dropped_without_link_witness:
  "control_ws \<lparr>control_ws = None, upstream = [''x''], mc = None, log = []\<rparr> = None
   \<and> send_control id (JObj [(''N'', JInt 6)])
        \<lparr>control_ws = None, upstream = [''x''], mc = None, log = []\<rparr>
       = \<lparr>control_ws = None, upstream = [''x''], mc = None, log = [Control_dropped]\<rparr>
   \<and> handle_browser_message id
        (Some (JObj [(''type'', JStr ''motor''), (''left'', JInt 100), (''right'', JInt (- 100))]))
        \<lparr>control_ws = None, upstream = [''x''], mc = None, log = []\<rparr>
       = Inr \<lparr>control_ws = None, upstream = [''x''], mc = Some 1,
              log = [Motor_info 1, Control_dropped]\<rparr>"
proof -
  let ?st = "\<lparr>control_ws = None, upstream = [''x''], mc = None, log = []\<rparr>"
  have h: "control_ws ?st = None" by simp
  note t = control_dropped_without_link [OF h, of id "JObj [(''N'', JInt 6)]"]
  have a: "send_control id (JObj [(''N'', JInt 6)]) ?st
         = ?st\<lparr>log := log ?st @ [Control_dropped]\<rparr>"
    by (rule conjunct1 [OF t])
  have b: "handle_browser_message id
        (Some (JObj [(''type'', JStr ''motor''), (''left'', JInt 100), (''right'', JInt (- 100))])) ?st
       = Inr \<lparr>control_ws = None, upstream = [''x''], mc = Some 1,
              log = [Motor_info 1, Control_dropped]\<rparr>"
    by code_simp
  show ?thesis unfolding a using b by simp
qed

text \<open>
  Claim C10. A message of type \<open>motor\<close> is handled without an error whether or not it
  has the fields \<^verbatim>\<open>left\<close> and \<^verbatim>\<open>right\<close>; the command built has 0 for a field that
  is absent, and with a working connection it is sent in the wrapper object. With both
  absent the command is the text of \<^verbatim>\<open>{"N": 7, "D1": 0, "D2": 0}\<close>.
\<close>

theorem motor_missing_fields_default_zero:
  assumes "map_of kvs ''type'' = Some (JStr ''motor'')"
  shows "(\<exists>st'. handle_browser_message fr (Some (JObj kvs)) st = Inr st'
            \<and> (\<forall>ws. control_ws st = Some ws \<and> \<not> send_raises ws \<longrightarrow>
                 upstream st' = upstream st @
                   [json_dumps fr
                      (JObj [(''target'', JStr ''arduino''),
                             (''cmd'', JStr (json_dumps fr
                                (JObj [(''N'', JInt 7),
                                       (''D1'', case map_of kvs ''left'' of None \<Rightarrow> JInt 0 | Some v \<Rightarrow> v),
                                       (''D2'', case map_of kvs ''right'' of None \<Rightarrow> JInt 0 | Some v \<Rightarrow> v)])))])]))
       \<and> json_dumps fr (JObj [(''N'', JInt 7), (''D1'', JInt 0), (''D2'', JInt 0)])
           = ''{'' @ [dquote] @ ''N'' @ [dquote] @ '': 7, '' @ [dquote] @ ''D1'' @ [dquote] @ '': 0, ''
             @ [dquote] @ ''D2'' @ [dquote] @ '': 0}''"
proof (intro conjI)
  let ?P = "JObj [(''target'', JStr ''arduino''),
                  (''cmd'', JStr (json_dumps fr
                     (JObj [(''N'', JInt 7),
                            (''D1'', case map_of kvs ''left'' of None \<Rightarrow> JInt 0 | Some v \<Rightarrow> v),
                            (''D2'', case map_of kvs ''right'' of None \<Rightarrow> JInt 0 | Some v \<Rightarrow> v)])))]"
  define st2 where "st2 = (let n = (case mc st of None \<Rightarrow> 0 | Some n \<Rightarrow> n) + 1
              in if n mod 20 = 1 then st\<lparr>mc := Some n, log := log st @ [Motor_info n]\<rparr>
                 else st\<lparr>mc := Some n\<rparr>)"
  have h: "handle_browser_message fr (Some (JObj kvs)) st = Inr (send_control fr ?P st2)"
    unfolding st2_def by (rule handle_motor [OF assms])
  have u: "upstream st2 = upstream st" and c: "control_ws st2 = control_ws st"
    by (simp_all add: st2_def Let_def)
  have "\<forall>ws. control_ws st = Some ws \<and> \<not> send_raises ws \<longrightarrow>
          upstream (send_control fr ?P st2) = upstream st @ [json_dumps fr ?P]"
  proof (intro allI impI)
    fix ws assume "control_ws st = Some ws \<and> \<not> send_raises ws"
    then have "control_ws st2 = Some ws" and "\<not> send_raises ws" using c by simp_all
    from send_control_live [OF this, of fr ?P]
    show "upstream (send_control fr ?P st2) = upstream st @ [json_dumps fr ?P]"
      by (simp add: u del: json_dumps.simps)
  qed
  with h show "\<exists>st'. handle_browser_message fr (Some (JObj kvs)) st = Inr st'
            \<and> (\<forall>ws. control_ws st = Some ws \<and> \<not> send_raises ws \<longrightarrow>
                 upstream st' = upstream st @ [json_dumps fr ?P])"
    by blast
qed (rule dumps_motor_zero)

text \<open>The message \<^verbatim>\<open>{"type": "motor"}\<close> with a working connection.\<close>

theorem motor_missing_fields_default_zero_witness:
  "map_of [(''type'', JStr ''motor'')] ''type'' = Some (JStr ''motor'' :: string json)
   \<and> map_of [(''type'', JStr ''motor'' :: string json)] ''left'' = None
   \<and> map_of [(''type'', JStr ''motor'' :: string json)] ''right'' = None
   \<and> handle_browser_message id (Some (JObj [(''type'', JStr ''motor'')]))
        \<lparr>control_ws = Some \<lparr>send_raises = False\<rparr>, upstream = [], mc = None, log = []\<rparr>
      = Inr \<lparr>control_ws = Some \<lparr>send_raises = False\<rparr>,
             upstream = [json_dumps id
                (JObj [(''target'', JStr ''arduino''),
                       (''cmd'', JStr (''{'' @ [dquote] @ ''N'' @ [dquote] @ '': 7, '' @ [dquote] @ ''D1''
                           @ [dquote] @ '': 0, '' @ [dquote] @ ''D2'' @ [dquote] @ '': 0}''))])],
             mc = Some 1, log = [Motor_info 1]\<rparr>"
proof -
  let ?st = "\<lparr>control_ws = Some \<lparr>send_raises = False\<rparr>, upstream = [], mc = None, log = []\<rparr>"
  have h: "map_of [(''type'', JStr ''motor'')] ''type'' = Some (JStr ''motor'' :: string json)" by simp
  note t = motor_missing_fields_default_zero [OF h, of id ?st]
  have ev: "handle_browser_message id (Some (JObj [(''type'', JStr ''motor'')])) ?st
      = Inr \<lparr>control_ws = Some \<lparr>send_raises = False\<rparr>,
             upstream = [json_dumps id
                (JObj [(''target'', JStr ''arduino''),
                       (''cmd'', JStr (''{'' @ [dquote] @ ''N'' @ [dquote] @ '': 7, '' @ [dquote] @ ''D1''
                           @ [dquote] @ '': 0, '' @ [dquote] @ ''D2'' @ [dquote] @ '': 0}''))])],
             mc = Some 1, log = [Motor_info 1]\<rparr>"
    by code_simp
  from t ev show ?thesis by simp
qed

subsection \<open>Reconnection delays\<close>

lemma sleeps_append: "sleeps (xs @ ys) = sleeps xs @ sleeps ys"
  by (induction xs rule: sleeps.induct) simp_all






end
